theory Spec2Isabelle
  imports Complex_Main "HOL-Library.AList" "HOL-Library.Multiset"
begin

section \<open>Data model of PortfolioManagerPAI.tsx\<close>

text \<open>
  The TypeScript \<open>number\<close> of the aggregation engine is modelled by \<^typ>\<open>real\<close>: the
  arithmetic is the exact one, without the rounding of IEEE doubles, and the inputs are finite
  numbers. Every division of the engine is guarded by a \<open>> 0\<close> test, so no infinity and no
  NaN arises from finite inputs. An optional field (\<open>fees?: number\<close>) is an \<open>option\<close>.
  The record of a transaction is polymorphic in its types of text and number: the engine
  only compares tickers, and has them as \<^typ>\<open>string\<close>; the CSV import looks at the
  characters and can produce NaN fields, and has its own types (see the section on
  \<open>csvToTransactions\<close>).
\<close>

datatype TxType = BUY | SELL

record ('s, 'n) Transaction =
  tx_id :: 's
  tx_date :: 's
  tx_ticker :: 's
  tx_type :: TxType
  tx_qty :: 'n
  tx_price :: 'n
  tx_fees :: "'n option"

record PriceNow =
  pn_ticker :: string
  pn_price :: real
  pn_updatedAt :: string

record Trigger =
  tr_ticker :: string
  buyPrice :: "real option"
  sellPrice :: "real option"
  trailingStopPct :: "real option"
  tr_note :: "string option"

datatype DividendType = ON | PN | UNIT | BDR | ETF | OUTRO

record DividendEntry =
  dv_id :: string
  dv_date :: string
  dv_ticker :: string
  dv_type :: DividendType
  valuePerShare :: real
  dv_note :: "string option"

record PortfolioData =
  p_id :: string
  p_name :: string
  baseCurrency :: string
  transactions :: "(string, real) Transaction list"
  prices :: "PriceNow list"
  triggers :: "Trigger list"
  dividends :: "DividendEntry list"
  history :: "(string \<times> real) list"

datatype Signal = SigBUY | SigSELL | SigHOLD | SigSTOP

record Position =
  pos_ticker :: string
  pos_qty :: real
  invested :: real
  avgPrice :: real
  lastPrice :: real
  mktValue :: real
  pl :: real
  plPct :: real
  divsTotal :: real
  divYieldOnCost :: real
  signal :: Signal
  trigger :: "Trigger option"

section \<open>Helpers of the language\<close>

text \<open>\<open>x || 0\<close> on an optional number: \<open>undefined\<close> and \<open>0\<close> both give \<open>0\<close>.\<close>

definition or0 :: "real option \<Rightarrow> real" where
  "or0 x = (case x of None \<Rightarrow> 0 | Some v \<Rightarrow> (if v = 0 then 0 else v))"

text \<open>
  A JavaScript \<open>Map\<close> with string keys is an association list in insertion order:
  \<open>get\<close> is \<^const>\<open>map_of\<close>, and \<open>set\<close> is \<^const>\<open>AList.update\<close> (an existing key keeps
  its place, a new key goes to the end).

  \<open>new Date(s)\<close> is a parameter \<open>dp\<close> of the functions that use it: it gives the time value
  of the date, or \<open>None\<close> for an invalid date (whose time value is NaN). The comparison
  \<open>a <= b\<close> of two dates compares the time values and is false when either is NaN.
\<close>

type_synonym dateParse = "string \<Rightarrow> int option"

definition dateLe :: "int option \<Rightarrow> int option \<Rightarrow> bool" where
  "dateLe a b = (case a of None \<Rightarrow> False
                 | Some x \<Rightarrow> (case b of None \<Rightarrow> False | Some y \<Rightarrow> x \<le> y))"

section \<open>shareCountAtDate\<close>

text \<open>
  Lines 199 to 207 of the source. The loop over the transactions is a fold over the
  running count \<open>q\<close>; \<open>signedQty\<close> is its summand \<open>t.type === "BUY" ? t.qty : -t.qty\<close>,
  and the result is \<open>Math.max(q, 0)\<close>.
\<close>

definition signedQty :: "(string, real) Transaction \<Rightarrow> real" where
  "signedQty t = (if tx_type t = BUY then tx_qty t else - tx_qty t)"

definition shareCountStep :: "dateParse \<Rightarrow> string \<Rightarrow> int option \<Rightarrow> real \<Rightarrow> (string, real) Transaction \<Rightarrow> real" where
  "shareCountStep dp tk d q t =
     (if tx_ticker t \<noteq> tk then q
      else if dateLe (dp (tx_date t)) d then q + signedQty t
      else q)"

definition shareCountAtDate :: "dateParse \<Rightarrow> (string, real) Transaction list \<Rightarrow> string \<Rightarrow> string \<Rightarrow> real" where
  "shareCountAtDate dp txs tk dateISO =
     (let d = dp dateISO;
          q = foldl (shareCountStep dp tk d) 0 txs
      in max q 0)"

section \<open>aggregatePositions\<close>

subsection \<open>Grouping and lookup tables\<close>

text \<open>
  Lines 100 to 115 of the source: the map \<open>txByTicker\<close>, the maps of the quotes and of
  the triggers (a later entry of a ticker replaces an earlier one), and the dividends per
  ticker. The grouping loop creates the empty list of a new ticker and pushes onto the
  ticker's list; both steps are one update here.
\<close>

definition pushTx :: "(string \<times> (string, real) Transaction list) list \<Rightarrow> (string, real) Transaction
    \<Rightarrow> (string \<times> (string, real) Transaction list) list" where
  "pushTx m t =
     (case map_of m (tx_ticker t) of
        None \<Rightarrow> AList.update (tx_ticker t) [t] m
      | Some l \<Rightarrow> AList.update (tx_ticker t) (l @ [t]) m)"

definition txByTicker :: "(string, real) Transaction list \<Rightarrow> (string \<times> (string, real) Transaction list) list" where
  "txByTicker txs = foldl pushTx [] txs"

definition priceMap :: "PriceNow list \<Rightarrow> (string \<times> real) list" where
  "priceMap ps = foldl (\<lambda>m x. AList.update (pn_ticker x) (pn_price x) m) [] ps"

definition trigMap :: "Trigger list \<Rightarrow> (string \<times> Trigger) list" where
  "trigMap ts = foldl (\<lambda>m x. AList.update (tr_ticker x) x m) [] ts"

definition divStep :: "dateParse \<Rightarrow> (string, real) Transaction list \<Rightarrow> (string \<times> real) list
    \<Rightarrow> DividendEntry \<Rightarrow> (string \<times> real) list" where
  "divStep dp txs m d =
     (let q = shareCountAtDate dp txs (dv_ticker d) (dv_date d);
          amt = q * valuePerShare d
      in AList.update (dv_ticker d) (or0 (map_of m (dv_ticker d)) + amt) m)"

definition divByTicker :: "dateParse \<Rightarrow> (string, real) Transaction list \<Rightarrow> DividendEntry list
    \<Rightarrow> (string \<times> real) list" where
  "divByTicker dp txs ds = foldl (divStep dp txs) [] ds"

subsection \<open>The cost-basis fold\<close>

text \<open>
  Lines 121 to 135 of the source: the state of the loop over the transactions of a ticker
  is the pair of the running \<open>qty\<close> and \<open>cost\<close>.
\<close>

fun costStep :: "real \<times> real \<Rightarrow> (string, real) Transaction \<Rightarrow> real \<times> real" where
  "costStep (qty, cost) t =
     (let fees = or0 (tx_fees t) in
      if tx_type t = BUY then (qty + tx_qty t, cost + (tx_qty t * tx_price t + fees))
      else
        (let avg = (if qty > 0 then cost / qty else 0) in
         (qty - tx_qty t, cost - avg * tx_qty t + fees)))"

definition costFold :: "(string, real) Transaction list \<Rightarrow> real \<times> real" where
  "costFold list = foldl costStep (0, 0) list"

subsection \<open>Signals\<close>

text \<open>
  The three assignments to \<open>signal\<close> of a ticker with transactions, in the order of the
  source: each later one overwrites the earlier ones.
\<close>

definition deriveSignal :: "Trigger option \<Rightarrow> real \<Rightarrow> real \<Rightarrow> Signal" where
  "deriveSignal tro lastP plP =
     (case tro of
        None \<Rightarrow> SigHOLD
      | Some tr \<Rightarrow>
          (let s0 = SigHOLD;
               s1 = (if (case buyPrice tr of None \<Rightarrow> False
                         | Some b \<Rightarrow> lastP > 0 \<and> lastP \<le> b)
                     then SigBUY else s0);
               s2 = (if (case sellPrice tr of None \<Rightarrow> False
                         | Some s \<Rightarrow> lastP > 0 \<and> lastP \<ge> s)
                     then SigSELL else s1);
               s3 = (case trailingStopPct tr of
                       None \<Rightarrow> s2
                     | Some st \<Rightarrow>
                         (if st > 0 \<and> lastP > 0
                          then (if plP \<le> - st then SigSTOP else s2)
                          else s2))
           in s3))"

text \<open>The signal of a ticker that has a quote and no transaction: a conditional chain
  on the truthiness of the thresholds (\<open>tr?.buyPrice && pr.price <= tr.buyPrice\<close>).\<close>

definition quoteTest :: "real option \<Rightarrow> (real \<Rightarrow> bool) \<Rightarrow> bool" where
  "quoteTest th cmp = (case th of None \<Rightarrow> False | Some v \<Rightarrow> v \<noteq> 0 \<and> cmp v)"

definition quoteSignal :: "Trigger option \<Rightarrow> real \<Rightarrow> Signal" where
  "quoteSignal tro price =
     (if (case tro of None \<Rightarrow> False
          | Some tr \<Rightarrow> quoteTest (buyPrice tr) (\<lambda>b. price \<le> b)) then SigBUY
      else if (case tro of None \<Rightarrow> False
          | Some tr \<Rightarrow> quoteTest (sellPrice tr) (\<lambda>s. price \<ge> s)) then SigSELL
      else SigHOLD)"

subsection \<open>Positions\<close>

text \<open>
  \<open>positionOf\<close> is one round of the loop over the groups (lines 119 to 170), for the
  entry \<open>e\<close> of a ticker and its transactions. \<open>quotePosition\<close> and \<open>addQuoteOnly\<close> are one
  round of the loop over the quotes (lines 173 to 193), which adds a position for a quote
  whose ticker has none yet.
\<close>

definition positionOf :: "(string \<times> real) list \<Rightarrow> (string \<times> Trigger) list \<Rightarrow> (string \<times> real) list
    \<Rightarrow> string \<times> (string, real) Transaction list \<Rightarrow> Position" where
  "positionOf pm tm dm e =
     (let tk = fst e;
          (qty, cost) = costFold (snd e);
          avgP = (if qty > 0 then cost / max qty 1 else 0);
          lastP = or0 (map_of pm tk);
          mkt = qty * lastP;
          pl' = mkt - cost;
          plP = (if cost > 0 then (pl' / cost) * 100 else 0);
          divs = or0 (map_of dm tk);
          dy = (if cost > 0 then divs / cost else 0);
          tr = map_of tm tk
      in \<lparr> pos_ticker = tk, pos_qty = qty, invested = cost, avgPrice = avgP,
           lastPrice = lastP, mktValue = mkt, pl = pl', plPct = plP,
           divsTotal = divs, divYieldOnCost = dy,
           signal = deriveSignal tr lastP plP, trigger = tr \<rparr>)"

definition quotePosition :: "Trigger list \<Rightarrow> PriceNow \<Rightarrow> Position" where
  "quotePosition trs pr =
     (let tr = find (\<lambda>t. tr_ticker t = pn_ticker pr) trs
      in \<lparr> pos_ticker = pn_ticker pr, pos_qty = 0, invested = 0, avgPrice = 0,
           lastPrice = pn_price pr, mktValue = 0, pl = 0, plPct = 0,
           divsTotal = 0, divYieldOnCost = 0,
           signal = quoteSignal tr (pn_price pr), trigger = tr \<rparr>)"

definition addQuoteOnly :: "Trigger list \<Rightarrow> Position list \<Rightarrow> PriceNow \<Rightarrow> Position list" where
  "addQuoteOnly trs positions pr =
     (if find (\<lambda>x. pos_ticker x = pn_ticker pr) positions = None
      then positions @ [quotePosition trs pr]
      else positions)"

text \<open>
  \<open>Array.prototype.sort\<close> with the comparator \<open>a.ticker.localeCompare(b.ticker)\<close>: the
  collation \<open>localeCompare\<close> depends on the locale of the host and is a parameter. The sort
  is stable, so it is the insertion sort that puts an element behind the elements that do
  not compare greater.
\<close>

fun insertBy :: "('a \<Rightarrow> 'a \<Rightarrow> int) \<Rightarrow> 'a \<Rightarrow> 'a list \<Rightarrow> 'a list" where
  "insertBy cmp x [] = [x]"
| "insertBy cmp x (y # ys) = (if cmp x y < 0 then x # y # ys else y # insertBy cmp x ys)"

definition sortBy :: "('a \<Rightarrow> 'a \<Rightarrow> int) \<Rightarrow> 'a list \<Rightarrow> 'a list" where
  "sortBy cmp xs = foldl (\<lambda>acc x. insertBy cmp x acc) [] xs"

definition positionsUnsorted :: "dateParse \<Rightarrow> PortfolioData \<Rightarrow> Position list" where
  "positionsUnsorted dp p =
     (let pm = priceMap (prices p);
          tm = trigMap (triggers p);
          dm = divByTicker dp (transactions p) (dividends p);
          positions = map (positionOf pm tm dm) (txByTicker (transactions p))
      in foldl (addQuoteOnly (triggers p)) positions (prices p))"

definition aggregatePositions :: "(string \<Rightarrow> string \<Rightarrow> int) \<Rightarrow> dateParse \<Rightarrow> PortfolioData
    \<Rightarrow> Position list" where
  "aggregatePositions localeCompare dp p =
     sortBy (\<lambda>a b. localeCompare (pos_ticker a) (pos_ticker b)) (positionsUnsorted dp p)"

section \<open>upsert and setPrice\<close>

fun findIndexFrom :: "('a \<Rightarrow> bool) \<Rightarrow> 'a list \<Rightarrow> nat \<Rightarrow> int" where
  "findIndexFrom P [] i = - 1"
| "findIndexFrom P (x # xs) i = (if P x then int i else findIndexFrom P xs (Suc i))"

definition findIndex :: "('a \<Rightarrow> bool) \<Rightarrow> 'a list \<Rightarrow> int" where
  "findIndex P xs = findIndexFrom P xs 0"

definition upsert :: "'a list \<Rightarrow> ('a \<Rightarrow> bool) \<Rightarrow> 'a \<Rightarrow> 'a list" where
  "upsert arr match next =
     (let i = findIndex match arr
      in if i = - 1 then arr @ [next] else arr[nat i := next])"

text \<open>
  \<open>setPrice\<close> replaces the prices of the current portfolio in the list of all portfolios;
  without a current portfolio it does nothing. The time stamp \<open>now\<close> of the new quote is
  \<open>new Date().toISOString()\<close>, a parameter.
\<close>

definition setPrice :: "string \<Rightarrow> PortfolioData option \<Rightarrow> string \<Rightarrow> real
    \<Rightarrow> PortfolioData list \<Rightarrow> PortfolioData list" where
  "setPrice nowISO current tk price d =
     (case current of
        None \<Rightarrow> d
      | Some cur \<Rightarrow>
          (let now = \<lparr> pn_ticker = tk, pn_price = price, pn_updatedAt = nowISO \<rparr>
           in map (\<lambda>p. if p_id p = p_id cur
                        then p\<lparr> prices := upsert (prices p) (\<lambda>x. pn_ticker x = tk) now \<rparr>
                        else p) d))"

section \<open>csvToTransactions\<close>

text \<open>
  The text of the import is a JavaScript string: the list of its UTF-16 code units, each an
  integer from 0 to 65535. \<open>js\<close> embeds an ASCII literal. The white space that \<open>trim\<close> and \<open>Number\<close>
  strip is the \<open>WhiteSpace\<close> and \<open>LineTerminator\<close> of ECMAScript: tab, line feed, vertical
  tab, form feed, carriage return, space, no-break space, U+1680, U+2000 to U+200A, the line
  and paragraph separators, U+202F, U+205F, U+3000 and U+FEFF.

  Three functions of the host are parameters of the import: \<open>lower\<close> and \<open>upper\<close> are
  \<open>toLowerCase\<close> and \<open>toUpperCase\<close> (the case mapping of Unicode), and \<open>nv\<close> gives the
  Number value for a mathematical value, that is, its rounding to a double, with an infinity
  beyond the range.
\<close>

type_synonym jsstring = "int list"

definition js :: "string \<Rightarrow> jsstring" where
  "js s = map of_char s"







subsection \<open>Number(string)\<close>


definition isDigit :: "int \<Rightarrow> bool" where
  "isDigit c = (48 \<le> c \<and> c \<le> 57)"

definition hexVal :: "int \<Rightarrow> int option" where
  "hexVal c =
     (if 48 \<le> c \<and> c \<le> 57 then Some (c - 48)
      else if 97 \<le> c \<and> c \<le> 102 then Some (c - 87)
      else if 65 \<le> c \<and> c \<le> 70 then Some (c - 55)
      else None)"

fun digitsIn :: "int \<Rightarrow> int \<Rightarrow> jsstring \<Rightarrow> int option" where
  "digitsIn base acc [] = Some acc"
| "digitsIn base acc (c # cs) =
     (case hexVal c of
        None \<Rightarrow> None
      | Some d \<Rightarrow> if d < base then digitsIn base (base * acc + d) cs else None)"









subsection \<open>Rows\<close>












section \<open>Instances of the parameters, for closed examples\<close>

text \<open>
  A collation that compares strings by their code units, and the date-only form
  \<open>YYYY-MM-DD\<close> of the ECMAScript date-time format, read as midnight UTC in milliseconds
  since 1970-01-01. \<open>isoDate\<close> gives \<open>None\<close> on every other string (hosts differ on what
  else they accept); among others the empty string is an invalid date on every host.
\<close>

fun codeUnitCompare :: "string \<Rightarrow> string \<Rightarrow> int" where
  "codeUnitCompare [] [] = 0"
| "codeUnitCompare [] (y # ys) = - 1"
| "codeUnitCompare (x # xs) [] = 1"
| "codeUnitCompare (x # xs) (y # ys) =
     (if (of_char x :: nat) < of_char y then - 1
      else if (of_char y :: nat) < of_char x then 1
      else codeUnitCompare xs ys)"

definition decimalInt :: "string \<Rightarrow> int option" where
  "decimalInt s =
     (if list_all isDigit (js s) then digitsIn 10 0 (js s) else None)"

definition isLeap :: "int \<Rightarrow> bool" where
  "isLeap y = (y mod 4 = 0 \<and> (y mod 100 \<noteq> 0 \<or> y mod 400 = 0))"

definition daysInMonth :: "int \<Rightarrow> int \<Rightarrow> int" where
  "daysInMonth y m =
     (if m = 2 then (if isLeap y then 29 else 28)
      else if m = 4 \<or> m = 6 \<or> m = 9 \<or> m = 11 then 30 else 31)"

definition daysFromCivil :: "int \<Rightarrow> int \<Rightarrow> int \<Rightarrow> int" where
  "daysFromCivil y m d =
     (let y' = (if m \<le> 2 then y - 1 else y);
          era = y' div 400;
          yoe = y' - era * 400;
          doy = (153 * (if m > 2 then m - 3 else m + 9) + 2) div 5 + d - 1;
          doe = yoe * 365 + yoe div 4 - yoe div 100 + doy
      in era * 146097 + doe - 719468)"

definition isoDate :: "string \<Rightarrow> int option" where
  "isoDate s =
     (if length s = 10 \<and> s ! 4 = CHR ''-'' \<and> s ! 7 = CHR ''-'' then
        (case (decimalInt (take 4 s), decimalInt (take 2 (drop 5 s)), decimalInt (drop 8 s)) of
           (Some y, Some m, Some d) \<Rightarrow>
             (if 1 \<le> m \<and> m \<le> 12 \<and> 1 \<le> d \<and> d \<le> daysInMonth y m
              then Some (daysFromCivil y m d * 86400000) else None)
         | _ \<Rightarrow> None)
      else None)"



definition overflowBound :: real where
  "overflowBound =
     179769313486231580793728971405303415079934132710037826936173778980444968292764750946649017977587207096330286416692887910946555547851940402630657488671505820681908902000708383676273854845817711531764475730270069855571366959622842914819860834936475292719074168444365510704342711559699508093042880177904174497792"



text \<open>Transactions, quotes and portfolios of the examples.\<close>

definition mkTx :: "string \<Rightarrow> string \<Rightarrow> TxType \<Rightarrow> real \<Rightarrow> real \<Rightarrow> real option \<Rightarrow> (string, real) Transaction" where
  "mkTx d tk ty q pr f =
     \<lparr> tx_id = ''id'', tx_date = d, tx_ticker = tk, tx_type = ty,
       tx_qty = q, tx_price = pr, tx_fees = f \<rparr>"

definition mkQuote :: "string \<Rightarrow> real \<Rightarrow> PriceNow" where
  "mkQuote tk pr = \<lparr> pn_ticker = tk, pn_price = pr, pn_updatedAt = ''2024-06-01T12:00:00.000Z'' \<rparr>"

definition mkTrigger :: "string \<Rightarrow> real option \<Rightarrow> real option \<Rightarrow> real option \<Rightarrow> Trigger" where
  "mkTrigger tk b s st =
     \<lparr> tr_ticker = tk, buyPrice = b, sellPrice = s, trailingStopPct = st, tr_note = None \<rparr>"

definition mkPortfolio :: "(string, real) Transaction list \<Rightarrow> PriceNow list \<Rightarrow> Trigger list \<Rightarrow> PortfolioData" where
  "mkPortfolio txs ps trs =
     \<lparr> p_id = ''p1'', p_name = ''Principal'', baseCurrency = ''BRL'', transactions = txs,
       prices = ps, triggers = trs, dividends = [], history = [] \<rparr>"

section \<open>The signal as the specification words it\<close>

text \<open>
  The specification gives the signal of a ticker with transactions by precedence: STOP over
  SELL over BUY over HOLD. These definitions follow its words; the theorem on the signal
  compares them with \<open>deriveSignal\<close>, which follows the source.
\<close>

definition buyMatches :: "Trigger \<Rightarrow> real \<Rightarrow> bool" where
  "buyMatches tr lastP = (case buyPrice tr of None \<Rightarrow> False | Some b \<Rightarrow> lastP > 0 \<and> lastP \<le> b)"

definition sellMatches :: "Trigger \<Rightarrow> real \<Rightarrow> bool" where
  "sellMatches tr lastP = (case sellPrice tr of None \<Rightarrow> False | Some s \<Rightarrow> lastP > 0 \<and> lastP \<ge> s)"

definition stopMatches :: "Trigger \<Rightarrow> real \<Rightarrow> real \<Rightarrow> bool" where
  "stopMatches tr lastP plP =
     (case trailingStopPct tr of None \<Rightarrow> False | Some st \<Rightarrow> st > 0 \<and> lastP > 0 \<and> plP \<le> - st)"

definition specSignal :: "Trigger option \<Rightarrow> real \<Rightarrow> real \<Rightarrow> Signal" where
  "specSignal tro lastP plP =
     (case tro of
        None \<Rightarrow> SigHOLD
      | Some tr \<Rightarrow>
          if stopMatches tr lastP plP then SigSTOP
          else if sellMatches tr lastP then SigSELL
          else if buyMatches tr lastP then SigBUY
          else SigHOLD)"

section \<open>Lemmas on the engine\<close>

subsection \<open>The cost-basis fold\<close>

lemma or0_eq: "or0 x = (case x of None \<Rightarrow> 0 | Some v \<Rightarrow> v)"
  by (simp add: or0_def split: option.splits)

lemma costFold_snoc: "costFold (pre @ [t]) = costStep (costFold pre) t"
  by (simp add: costFold_def)

lemma costStep_buys:
  "\<forall>t \<in> set l. tx_type t = BUY \<Longrightarrow>
   foldl costStep (q, c) l =
     (q + (\<Sum>t\<leftarrow>l. tx_qty t), c + (\<Sum>t\<leftarrow>l. tx_qty t * tx_price t + or0 (tx_fees t)))"
  by (induction l arbitrary: q c) (simp_all add: Let_def algebra_simps)

lemma costFold_buys:
  "\<forall>t \<in> set l. tx_type t = BUY \<Longrightarrow>
   costFold l = ((\<Sum>t\<leftarrow>l. tx_qty t), (\<Sum>t\<leftarrow>l. tx_qty t * tx_price t + or0 (tx_fees t)))"
  using costStep_buys [of l 0 0] by (simp add: costFold_def)

subsection \<open>Grouping by ticker\<close>

lemma txByTicker_snoc: "txByTicker (txs @ [t]) = pushTx (txByTicker txs) t"
  by (simp add: txByTicker_def)

lemma map_of_pushTx:
  "map_of (pushTx m t) = (map_of m)(tx_ticker t \<mapsto> (case map_of m (tx_ticker t) of None \<Rightarrow> [] | Some l \<Rightarrow> l) @ [t])"
  by (simp add: pushTx_def AList.update_conv' split: option.splits)

lemma map_of_txByTicker:
  "map_of (txByTicker txs) k =
     (if k \<in> tx_ticker ` set txs then Some (filter (\<lambda>t. tx_ticker t = k) txs) else None)"
proof (induction txs rule: rev_induct)
  case Nil
  then show ?case by (simp add: txByTicker_def)
next
  case (snoc t txs)
  have "tx_ticker t \<notin> tx_ticker ` set txs \<Longrightarrow> filter (\<lambda>x. tx_ticker x = tx_ticker t) txs = []"
    by (auto simp: filter_empty_conv image_iff)
  with snoc show ?case
    by (auto simp: txByTicker_snoc map_of_pushTx)
qed

lemma distinct_pushTx: "distinct (map fst m) \<Longrightarrow> distinct (map fst (pushTx m t))"
  by (simp add: pushTx_def AList.distinct_update split: option.splits)

lemma distinct_txByTicker: "distinct (map fst (txByTicker txs))"
  by (induction txs rule: rev_induct) (simp_all add: txByTicker_def distinct_pushTx)

lemma txByTicker_entry:
  assumes "e \<in> set (txByTicker txs)"
  shows "fst e \<in> tx_ticker ` set txs \<and> snd e = filter (\<lambda>t. tx_ticker t = fst e) txs"
proof -
  have "map_of (txByTicker txs) (fst e) = Some (snd e)"
    using assms distinct_txByTicker [of txs] map_of_eq_Some_iff [of "txByTicker txs" "fst e" "snd e"]
    by simp
  then show ?thesis
    by (simp add: map_of_txByTicker split: if_splits)
qed

lemma keys_txByTicker: "fst ` set (txByTicker txs) = tx_ticker ` set txs"
proof -
  have "fst ` set (txByTicker txs) = dom (map_of (txByTicker txs))"
    by (simp add: dom_map_of_conv_image_fst)
  also have "\<dots> = tx_ticker ` set txs"
    by (auto simp: map_of_txByTicker dom_def)
  finally show ?thesis .
qed

subsection \<open>The sort is a permutation\<close>

lemma mset_insertBy: "mset (insertBy cmp x ys) = add_mset x (mset ys)"
  by (induction ys) simp_all

lemma mset_sortBy: "mset (sortBy cmp xs) = mset xs"
  by (induction xs rule: rev_induct) (simp_all add: sortBy_def mset_insertBy)

lemma set_sortBy: "set (sortBy cmp xs) = set xs"
  using mset_sortBy [of cmp xs] by (metis set_mset_mset)

lemma distinct_map_sortBy: "distinct (map f (sortBy cmp xs)) = distinct (map f xs)"
proof -
  have "mset (map f (sortBy cmp xs)) = mset (map f xs)"
    by (simp add: mset_sortBy)
  then show ?thesis by (rule mset_eq_imp_distinct_iff)
qed

subsection \<open>The loop over the quotes\<close>

lemma addQuoteOnly_snoc:
  "foldl (addQuoteOnly trs) ps (prs @ [pr]) = addQuoteOnly trs (foldl (addQuoteOnly trs) ps prs) pr"
  by simp

lemma addQuoteOnly_step:
  "addQuoteOnly trs ps pr =
     (if pn_ticker pr \<in> pos_ticker ` set ps then ps else ps @ [quotePosition trs pr])"
  proof -
  have "(find (\<lambda>x. pos_ticker x = pn_ticker pr) ps = None) = (pn_ticker pr \<notin> pos_ticker ` set ps)"
    unfolding find_None_iff by (metis (mono_tags, lifting) image_iff)
  then show ?thesis by (simp add: addQuoteOnly_def)
qed

lemma pos_ticker_quotePosition: "pos_ticker (quotePosition trs pr) = pn_ticker pr"
  by (simp add: quotePosition_def Let_def)

lemma tickers_addQuoteOnly:
  "pos_ticker ` set (foldl (addQuoteOnly trs) ps prs) = pos_ticker ` set ps \<union> pn_ticker ` set prs"
proof (induction prs rule: rev_induct)
  case Nil
  then show ?case by simp
next
  case (snoc pr prs)
  then show ?case
    by (auto simp: addQuoteOnly_step pos_ticker_quotePosition)
qed

lemma distinct_addQuoteOnly:
  "distinct (map pos_ticker ps) \<Longrightarrow> distinct (map pos_ticker (foldl (addQuoteOnly trs) ps prs))"
proof (induction prs rule: rev_induct)
  case Nil
  then show ?case by simp
next
  case (snoc pr prs)
  then show ?case
    by (auto simp: addQuoteOnly_step pos_ticker_quotePosition)
qed

lemma set_addQuoteOnly:
  "pos \<in> set (foldl (addQuoteOnly trs) ps prs) \<Longrightarrow>
   pos \<in> set ps \<or> (\<exists>pr \<in> set prs. pos = quotePosition trs pr \<and> pn_ticker pr \<notin> pos_ticker ` set ps)"
proof (induction prs arbitrary: pos rule: rev_induct)
  case Nil
  then show ?case by simp
next
  case (snoc pr prs)
  define R where "R = foldl (addQuoteOnly trs) ps prs"
  have tick: "pos_ticker ` set R = pos_ticker ` set ps \<union> pn_ticker ` set prs"
    unfolding R_def by (rule tickers_addQuoteOnly)
  have "foldl (addQuoteOnly trs) ps (prs @ [pr]) = addQuoteOnly trs R pr"
    unfolding R_def by simp
  with snoc.prems have mem: "pos \<in> set (addQuoteOnly trs R pr)"
    by simp
  have IH: "pos \<in> set R \<Longrightarrow>
      pos \<in> set ps \<or> (\<exists>pr \<in> set prs. pos = quotePosition trs pr \<and> pn_ticker pr \<notin> pos_ticker ` set ps)"
    using snoc.IH unfolding R_def .
  show ?case
  proof (cases "pos \<in> set R")
    case True
    with IH show ?thesis by auto
  next
    case False
    with mem have "pos = quotePosition trs pr" and "pn_ticker pr \<notin> pos_ticker ` set R"
      by (auto simp: addQuoteOnly_step split: if_splits)
    with tick show ?thesis by auto
  qed
qed

lemma ps_subset_addQuoteOnly: "set ps \<subseteq> set (foldl (addQuoteOnly trs) ps prs)"
  by (induction prs rule: rev_induct) (auto simp: addQuoteOnly_step)

lemma pos_ticker_positionOf: "pos_ticker (positionOf pm tm dm e) = fst e"
  by (simp add: positionOf_def Let_def split: prod.splits)


subsection \<open>Where a position of the output comes from\<close>

lemma aggregatePositions_mem:
  assumes "pos \<in> set (aggregatePositions lc dp p)"
  shows "(pos_ticker pos \<in> tx_ticker ` set (transactions p) \<and>
          pos = positionOf (priceMap (prices p)) (trigMap (triggers p))
                  (divByTicker dp (transactions p) (dividends p))
                  (pos_ticker pos, filter (\<lambda>t. tx_ticker t = pos_ticker pos) (transactions p)))
       \<or> (pos_ticker pos \<notin> tx_ticker ` set (transactions p) \<and>
          (\<exists>pr \<in> set (prices p). pos_ticker pos = pn_ticker pr \<and> pos = quotePosition (triggers p) pr))"
proof -
  let ?pm = "priceMap (prices p)" and ?tm = "trigMap (triggers p)"
  let ?dm = "divByTicker dp (transactions p) (dividends p)"
  let ?ps = "map (positionOf ?pm ?tm ?dm) (txByTicker (transactions p))"
  have tick: "pos_ticker ` set ?ps = tx_ticker ` set (transactions p)"
    using keys_txByTicker [of "transactions p"]
    by (simp add: image_image pos_ticker_positionOf)
  from assms have "pos \<in> set (foldl (addQuoteOnly (triggers p)) ?ps (prices p))"
    by (simp add: aggregatePositions_def set_sortBy positionsUnsorted_def Let_def)
  then consider (tx) "pos \<in> set ?ps"
    | (quote) pr where "pr \<in> set (prices p)" "pos = quotePosition (triggers p) pr"
        "pn_ticker pr \<notin> pos_ticker ` set ?ps"
    using set_addQuoteOnly by blast
  then show ?thesis
  proof cases
    case tx
    then obtain e where e: "e \<in> set (txByTicker (transactions p))" "pos = positionOf ?pm ?tm ?dm e"
      by auto
    from e(1) have "fst e \<in> tx_ticker ` set (transactions p)"
      and "snd e = filter (\<lambda>t. tx_ticker t = fst e) (transactions p)"
      using txByTicker_entry by blast+
    moreover have "pos_ticker pos = fst e"
      by (simp add: e(2) pos_ticker_positionOf)
    ultimately show ?thesis
      using e(2) by (metis prod.collapse)
  next
    case quote
    then show ?thesis
      using tick by (auto simp: pos_ticker_quotePosition)
  qed
qed

lemma invested_positionOf: "invested (positionOf pm tm dm e) = snd (costFold (snd e))"
  by (simp add: positionOf_def Let_def split: prod.splits)

lemma qty_positionOf: "pos_qty (positionOf pm tm dm e) = fst (costFold (snd e))"
  by (simp add: positionOf_def Let_def split: prod.splits)


subsection \<open>Fields of the two kinds of position\<close>

lemma deriveSignal_spec: "deriveSignal tro lastP plP = specSignal tro lastP plP"
  by (simp add: deriveSignal_def specSignal_def buyMatches_def sellMatches_def stopMatches_def
      Let_def split: option.splits)

lemma signal_positionOf:
  "signal (positionOf pm tm dm e) =
     deriveSignal (trigger (positionOf pm tm dm e)) (lastPrice (positionOf pm tm dm e))
       (plPct (positionOf pm tm dm e))"
  by (simp add: positionOf_def Let_def split: prod.splits)

lemma trigger_positionOf: "trigger (positionOf pm tm dm e) = map_of tm (fst e)"
  by (simp add: positionOf_def Let_def split: prod.splits)

lemma avgPrice_positionOf:
  "avgPrice (positionOf pm tm dm e) =
     (if pos_qty (positionOf pm tm dm e) > 0
      then invested (positionOf pm tm dm e) / max (pos_qty (positionOf pm tm dm e)) 1 else 0)"
  by (simp add: positionOf_def Let_def split: prod.splits)

lemma map_of_trigMap: "map_of (trigMap ts) k = find (\<lambda>t. tr_ticker t = k) (rev ts)"
  by (induction ts rule: rev_induct) (simp_all add: trigMap_def AList.update_conv')

lemma quotePosition_fields:
  "pos_qty (quotePosition trs pr) = 0" "invested (quotePosition trs pr) = 0"
  "avgPrice (quotePosition trs pr) = 0" "lastPrice (quotePosition trs pr) = pn_price pr"
  "trigger (quotePosition trs pr) = find (\<lambda>t. tr_ticker t = pn_ticker pr) trs"
  "signal (quotePosition trs pr) = quoteSignal (trigger (quotePosition trs pr)) (pn_price pr)"
  by (simp_all add: quotePosition_def Let_def)

lemma quoteSignal_not_stop: "quoteSignal tro price \<noteq> SigSTOP"
  by (simp add: quoteSignal_def)

lemma distinct_positionsUnsorted: "distinct (map pos_ticker (positionsUnsorted dp p))"
proof -
  have "map pos_ticker (map (positionOf pm tm dm) (txByTicker txs)) = map fst (txByTicker txs)"
    for pm tm dm txs
    by (simp add: pos_ticker_positionOf)
  then show ?thesis
    by (simp add: positionsUnsorted_def Let_def distinct_addQuoteOnly distinct_txByTicker
        del: map_map)
qed

lemma tickers_positionsUnsorted:
  "pos_ticker ` set (positionsUnsorted dp p) =
     tx_ticker ` set (transactions p) \<union> pn_ticker ` set (prices p)"
proof -
  have "pos_ticker ` set (map (positionOf pm tm dm) (txByTicker txs)) = tx_ticker ` set txs"
    for pm tm dm txs
    using keys_txByTicker [of txs] by (simp add: image_image pos_ticker_positionOf)
  then show ?thesis
    by (simp add: positionsUnsorted_def Let_def tickers_addQuoteOnly del: set_map)
qed


lemma avgPrice_position:
  assumes "pos \<in> set (aggregatePositions lc dp p)"
  shows "avgPrice pos = (if pos_qty pos > 0 then invested pos / max (pos_qty pos) 1 else 0)"
proof -
  from aggregatePositions_mem [OF assms]
  consider pm tm dm e where "pos = positionOf pm tm dm e"
    | pr where "pos = quotePosition (triggers p) pr"
    by blast
  then show ?thesis
  proof cases
    case 1
    show ?thesis by (subst (1 2 3 4) 1) (rule avgPrice_positionOf)
  next
    case 2
    then show ?thesis by (simp add: quotePosition_fields)
  qed
qed


section \<open>Lemmas on the other functions\<close>

subsection \<open>shareCountAtDate\<close>

lemma foldl_shareCountStep:
  "foldl (shareCountStep dp tk d) q txs =
     q + (\<Sum>t\<leftarrow>filter (\<lambda>t. tx_ticker t = tk \<and> dateLe (dp (tx_date t)) d) txs. signedQty t)"
  by (induction txs arbitrary: q) (simp_all add: shareCountStep_def)

lemma shareCountAtDate_sum:
  "shareCountAtDate dp txs tk dateISO =
     max (\<Sum>t\<leftarrow>filter (\<lambda>t. tx_ticker t = tk \<and> dateLe (dp (tx_date t)) (dp dateISO)) txs.
            signedQty t) 0"
  by (simp add: shareCountAtDate_def Let_def foldl_shareCountStep)

lemma dateLe_Some: "dateLe (Some x) (Some y) = (x \<le> y)"
  by (simp add: dateLe_def)

lemma dateLe_iff: "dateLe a b = (\<exists>x y. a = Some x \<and> b = Some y \<and> x \<le> y)"
  by (auto simp: dateLe_def split: option.splits)

lemma sum_filter_split:
  fixes f :: "'a \<Rightarrow> real"
  assumes "\<And>t. P1 t \<Longrightarrow> P2 t"
  shows "(\<Sum>t\<leftarrow>filter P2 xs. f t) =
         (\<Sum>t\<leftarrow>filter P1 xs. f t) + (\<Sum>t\<leftarrow>filter (\<lambda>t. P2 t \<and> \<not> P1 t) xs. f t)"
  using assms by (induction xs) auto


subsection \<open>upsert\<close>

lemma findIndexFrom_shift:
  "findIndexFrom P xs (Suc i) =
     (if findIndexFrom P xs i = - 1 then - 1 else findIndexFrom P xs i + 1)"
  by (induction xs arbitrary: i) auto

lemma findIndexFrom_range: "findIndexFrom P xs i = - 1 \<or> int i \<le> findIndexFrom P xs i"
  by (induction xs arbitrary: i) (auto, smt (verit) of_nat_Suc)

lemma upsert_Nil: "upsert [] P n = [n]"
  by (simp add: upsert_def findIndex_def)

lemma upsert_Cons: "upsert (x # xs) P n = (if P x then n # xs else x # upsert xs P n)"
proof (cases "P x")
  case True
  then show ?thesis by (simp add: upsert_def findIndex_def)
next
  case False
  have r: "findIndexFrom P xs 0 = - 1 \<or> 0 \<le> findIndexFrom P xs 0"
    using findIndexFrom_range [of P xs 0] by simp
  show ?thesis
  proof (cases "findIndexFrom P xs 0 = - 1")
    case True
    with False show ?thesis
      by (simp add: upsert_def findIndex_def findIndexFrom_shift)
  next
    case neq: False
    with r have nn: "0 \<le> findIndexFrom P xs 0" by simp
    then have "nat (findIndexFrom P xs 0 + 1) = Suc (nat (findIndexFrom P xs 0))"
      by simp
    with False neq nn show ?thesis
      by (simp add: upsert_def findIndex_def findIndexFrom_shift Let_def)
  qed
qed

lemma upsert_tickers:
  "pn_ticker n = tk \<Longrightarrow>
   map pn_ticker (upsert ps (\<lambda>x. pn_ticker x = tk) n) =
     (if tk \<in> pn_ticker ` set ps then map pn_ticker ps else map pn_ticker ps @ [tk])"
  by (induction ps) (auto simp: upsert_Nil upsert_Cons)

lemma upsert_others:
  "pn_ticker n = tk \<Longrightarrow>
   filter (\<lambda>q. pn_ticker q \<noteq> tk) (upsert ps (\<lambda>x. pn_ticker x = tk) n) =
   filter (\<lambda>q. pn_ticker q \<noteq> tk) ps"
  by (induction ps) (auto simp: upsert_Nil upsert_Cons)

lemma upsert_mem: "n \<in> set (upsert ps P n)"
  by (induction ps) (auto simp: upsert_Nil upsert_Cons)

lemma upsert_same:
  "distinct (map pn_ticker ps) \<Longrightarrow> pn_ticker n = tk \<Longrightarrow>
   q \<in> set (upsert ps (\<lambda>x. pn_ticker x = tk) n) \<Longrightarrow> pn_ticker q = tk \<Longrightarrow> q = n"
  by (induction ps) (auto simp: upsert_Nil upsert_Cons image_iff split: if_splits)


lemma setPrice_prices:
  "setPrice nowISO (Some cur) tk price d =
     map (\<lambda>p. if p_id p = p_id cur
               then p\<lparr> prices := upsert (prices p) (\<lambda>x. pn_ticker x = tk)
                      \<lparr> pn_ticker = tk, pn_price = price, pn_updatedAt = nowISO \<rparr> \<rparr>
               else p) d"
  by (simp add: setPrice_def)


subsection \<open>csvToTransactions\<close>





lemma overflowBound_eq: "overflowBound = 2 ^ 1024 - 2 ^ 970"
  by (simp add: overflowBound_def)







section \<open>The claims\<close>

text \<open>
  C1 (amended). In the cost-basis fold of \<open>aggregatePositions\<close>, a SELL of quantity \<open>q\<close>
  processed while the running \<open>qty\<close> is positive removes exactly \<open>(cost / qty) * q\<close> from
  the cost, subtracts \<open>q\<close> from \<open>qty\<close> and then adds the fees of the sell to the cost. When
  the sell does not close the position exactly (\<open>q \<noteq> qty\<close>), the average \<open>cost / qty\<close>
  right after the sell is the average before it plus \<open>fees / (qty - q)\<close>; so it is unchanged
  when the sell has no fees (absent or zero).
\<close>

theorem sell_step_cost_basis:
  assumes "tx_type t = SELL" and "costFold pre = (qty, cost)" and "qty > 0"
  shows "costFold (pre @ [t]) =
           (qty - tx_qty t, cost - (cost / qty) * tx_qty t + or0 (tx_fees t))
       \<and> (tx_qty t \<noteq> qty \<longrightarrow>
            snd (costFold (pre @ [t])) / fst (costFold (pre @ [t])) =
              cost / qty + or0 (tx_fees t) / (qty - tx_qty t))
       \<and> (tx_qty t \<noteq> qty \<and> or0 (tx_fees t) = 0 \<longrightarrow>
            snd (costFold (pre @ [t])) / fst (costFold (pre @ [t])) = cost / qty)"
proof -
  have step: "costFold (pre @ [t]) =
      (qty - tx_qty t, cost - (cost / qty) * tx_qty t + or0 (tx_fees t))"
    using assms by (simp add: costFold_snoc Let_def)
  have avg: "(cost - (cost / qty) * tx_qty t + f) / (qty - tx_qty t) = cost / qty + f / (qty - tx_qty t)"
    if "tx_qty t \<noteq> qty" for f
  proof -
    have "cost - (cost / qty) * tx_qty t = (cost / qty) * (qty - tx_qty t)"
      using assms(3) by (simp add: field_simps)
    then have "(cost - (cost / qty) * tx_qty t + f) / (qty - tx_qty t) =
        ((cost / qty) * (qty - tx_qty t)) / (qty - tx_qty t) + f / (qty - tx_qty t)"
      by (simp add: add_divide_distrib)
    also have "\<dots> = cost / qty + f / (qty - tx_qty t)"
      using that by simp
    finally show ?thesis .
  qed
  have r1: "snd (costFold (pre @ [t])) / fst (costFold (pre @ [t])) =
      cost / qty + or0 (tx_fees t) / (qty - tx_qty t)" if "tx_qty t \<noteq> qty"
    using avg [OF that, of "or0 (tx_fees t)"] by (simp only: step fst_conv snd_conv)
  have r2: "snd (costFold (pre @ [t])) / fst (costFold (pre @ [t])) = cost / qty"
    if "tx_qty t \<noteq> qty" and "or0 (tx_fees t) = 0"
    using r1 [OF that(1)] that(2) by simp
  show ?thesis
    using step r1 r2 by blast
qed

theorem sell_step_cost_basis_witness:
  "costFold ([mkTx ''2024-01-02'' ''PETR4'' BUY 100 37.5 None] @
             [mkTx ''2024-02-01'' ''PETR4'' SELL 50 40 None]) = (50, 1875)
   \<and> snd (costFold ([mkTx ''2024-01-02'' ''PETR4'' BUY 100 37.5 None] @
                   [mkTx ''2024-02-01'' ''PETR4'' SELL 50 40 None]))
     / fst (costFold ([mkTx ''2024-01-02'' ''PETR4'' BUY 100 37.5 None] @
                     [mkTx ''2024-02-01'' ''PETR4'' SELL 50 40 None])) = 3750 / 100"
proof -
  have pre: "costFold [mkTx ''2024-01-02'' ''PETR4'' BUY 100 37.5 None] = (100, 3750)"
    by (simp add: costFold_def mkTx_def or0_def)
  have sell: "tx_type (mkTx ''2024-02-01'' ''PETR4'' SELL 50 40 None) = SELL"
    by (simp add: mkTx_def)
  show ?thesis
    using sell_step_cost_basis [OF sell pre] by (simp add: mkTx_def or0_def)
qed

text \<open>
  The claim as the specification states it fails: a sell with fees changes the average.
  After buying 100 at 37.5, selling 50 with fees of 25 leaves 50 shares at a cost of 1900,
  an average of 38 instead of 37.5.
\<close>

theorem sell_with_fees_changes_average:
  "tx_type (mkTx ''2024-02-01'' ''PETR4'' SELL 50 40 (Some 25)) = SELL
   \<and> costFold [mkTx ''2024-01-02'' ''PETR4'' BUY 100 37.5 None] = (100, 3750)
   \<and> costFold [mkTx ''2024-01-02'' ''PETR4'' BUY 100 37.5 None,
               mkTx ''2024-02-01'' ''PETR4'' SELL 50 40 (Some 25)] = (50, 1900)
   \<and> (1900 :: real) / 50 \<noteq> 3750 / 100"
  by (simp add: costFold_def mkTx_def or0_def)

text \<open>
  C2. When all transactions of a ticker are BUYs, the position of the ticker in the output
  of \<open>aggregatePositions\<close> has \<open>invested\<close> equal to the sum of \<open>qty * price + fees\<close> (absent
  fees count as 0) and \<open>qty\<close> equal to the sum of the quantities; and the fold has these
  sums after every prefix of the ticker's transactions.
\<close>

theorem buy_only_position_totals:
  assumes "pos \<in> set (aggregatePositions lc dp p)" and "pos_ticker pos = tk"
    and "\<forall>t \<in> set (transactions p). tx_ticker t = tk \<longrightarrow> tx_type t = BUY"
  shows "invested pos = (\<Sum>t\<leftarrow>filter (\<lambda>t. tx_ticker t = tk) (transactions p).
                            tx_qty t * tx_price t + or0 (tx_fees t))
       \<and> pos_qty pos = (\<Sum>t\<leftarrow>filter (\<lambda>t. tx_ticker t = tk) (transactions p). tx_qty t)
       \<and> (\<forall>n. costFold (take n (filter (\<lambda>t. tx_ticker t = tk) (transactions p))) =
            ((\<Sum>t\<leftarrow>take n (filter (\<lambda>t. tx_ticker t = tk) (transactions p)). tx_qty t),
             (\<Sum>t\<leftarrow>take n (filter (\<lambda>t. tx_ticker t = tk) (transactions p)).
                  tx_qty t * tx_price t + or0 (tx_fees t))))"
proof -
  let ?l = "filter (\<lambda>t. tx_ticker t = tk) (transactions p)"
  have buys: "\<forall>t \<in> set ?l. tx_type t = BUY"
    using assms(3) by simp
  have pre: "costFold (take n ?l) =
      ((\<Sum>t\<leftarrow>take n ?l. tx_qty t), (\<Sum>t\<leftarrow>take n ?l. tx_qty t * tx_price t + or0 (tx_fees t)))" for n
  proof (rule costFold_buys)
    show "\<forall>t \<in> set (take n ?l). tx_type t = BUY"
      using buys by (meson in_set_takeD)
  qed
  have whole: "costFold ?l = ((\<Sum>t\<leftarrow>?l. tx_qty t), (\<Sum>t\<leftarrow>?l. tx_qty t * tx_price t + or0 (tx_fees t)))"
    using buys by (rule costFold_buys)
  from aggregatePositions_mem [OF assms(1)]
  have "invested pos = snd (costFold ?l) \<and> pos_qty pos = fst (costFold ?l)"
  proof
    assume "pos_ticker pos \<in> tx_ticker ` set (transactions p) \<and>
          pos = positionOf (priceMap (prices p)) (trigMap (triggers p))
                  (divByTicker dp (transactions p) (dividends p))
                  (pos_ticker pos, filter (\<lambda>t. tx_ticker t = pos_ticker pos) (transactions p))"
    then have "pos = positionOf (priceMap (prices p)) (trigMap (triggers p))
                  (divByTicker dp (transactions p) (dividends p)) (tk, ?l)"
      using assms(2) by simp
    then show ?thesis
      by (simp add: invested_positionOf qty_positionOf)
  next
    assume q: "pos_ticker pos \<notin> tx_ticker ` set (transactions p) \<and>
          (\<exists>pr \<in> set (prices p). pos_ticker pos = pn_ticker pr \<and> pos = quotePosition (triggers p) pr)"
    then have "?l = []"
      using assms(2) by (auto simp: filter_empty_conv image_iff)
    moreover from q have "invested pos = 0 \<and> pos_qty pos = 0"
      by (auto simp: quotePosition_def Let_def)
    ultimately show ?thesis
      by (simp add: costFold_def)
  qed
  with whole pre show ?thesis by simp
qed


theorem buy_only_position_totals_witness:
  "invested (aggregatePositions codeUnitCompare isoDate
          (mkPortfolio [mkTx ''2024-01-02'' ''PETR4'' BUY 100 37.5 None,
                        mkTx ''2024-01-03'' ''VALE3'' BUY 20 62 (Some 1),
                        mkTx ''2024-02-01'' ''PETR4'' BUY 10 40 (Some 2)]
                       [mkQuote ''PETR4'' 38] []) ! 0) = 4152
   \<and> pos_qty (aggregatePositions codeUnitCompare isoDate
          (mkPortfolio [mkTx ''2024-01-02'' ''PETR4'' BUY 100 37.5 None,
                        mkTx ''2024-01-03'' ''VALE3'' BUY 20 62 (Some 1),
                        mkTx ''2024-02-01'' ''PETR4'' BUY 10 40 (Some 2)]
                       [mkQuote ''PETR4'' 38] []) ! 0) = 110
   \<and> costFold (take 1 [mkTx ''2024-01-02'' ''PETR4'' BUY 100 37.5 None,
                        mkTx ''2024-02-01'' ''PETR4'' BUY 10 40 (Some 2)]) = (100, 3750)"
proof -
  let ?p = "mkPortfolio [mkTx ''2024-01-02'' ''PETR4'' BUY 100 37.5 None,
                        mkTx ''2024-01-03'' ''VALE3'' BUY 20 62 (Some 1),
                        mkTx ''2024-02-01'' ''PETR4'' BUY 10 40 (Some 2)]
                       [mkQuote ''PETR4'' 38] []"
  let ?out = "aggregatePositions codeUnitCompare isoDate ?p"
  have len: "length ?out = 2"
    by code_simp
  have mem: "?out ! 0 \<in> set ?out"
    using len by simp
  have tk: "pos_ticker (?out ! 0) = ''PETR4''"
    by code_simp
  have buys: "\<forall>t \<in> set (transactions ?p). tx_ticker t = ''PETR4'' \<longrightarrow> tx_type t = BUY"
    by (simp add: mkPortfolio_def mkTx_def)
  have fl: "filter (\<lambda>t. tx_ticker t = ''PETR4'') (transactions ?p) =
      [mkTx ''2024-01-02'' ''PETR4'' BUY 100 37.5 None, mkTx ''2024-02-01'' ''PETR4'' BUY 10 40 (Some 2)]"
    by (simp add: mkPortfolio_def mkTx_def)
  let ?l = "[mkTx ''2024-01-02'' ''PETR4'' BUY 100 37.5 None, mkTx ''2024-02-01'' ''PETR4'' BUY 10 40 (Some 2)]"
  have s1: "(\<Sum>t\<leftarrow>?l. tx_qty t * tx_price t + or0 (tx_fees t)) = 4152"
    by (simp add: mkTx_def or0_def)
  have s2: "(\<Sum>t\<leftarrow>?l. tx_qty t) = 110"
    by (simp add: mkTx_def)
  have s3: "((\<Sum>t\<leftarrow>take 1 ?l. tx_qty t), (\<Sum>t\<leftarrow>take 1 ?l. tx_qty t * tx_price t + or0 (tx_fees t)))
      = (100, 3750)"
    by (simp add: mkTx_def or0_def)
  note r = buy_only_position_totals [OF mem tk buys, unfolded fl]
  from r have "invested (?out ! 0) = 4152"
    by (simp only: s1)
  moreover from r have "pos_qty (?out ! 0) = 110"
    by (simp only: s2)
  moreover from r have "costFold (take 1 ?l) = (100, 3750)"
    by (simp only: s3)
  ultimately show ?thesis
    by blast
qed



text \<open>
  C3. The signal of a position with transactions follows the precedence of the
  specification: HOLD by default; BUY when the buy threshold is set, \<open>lastPrice > 0\<close> and
  \<open>lastPrice \<le> buyPrice\<close>; SELL when the sell threshold is set, \<open>lastPrice > 0\<close> and
  \<open>lastPrice \<ge> sellPrice\<close>, also when BUY matches; STOP when the trailing stop is set and
  positive, \<open>lastPrice > 0\<close> and \<open>plPct \<le> - trailingStopPct\<close>, over both. The trigger is the
  last one of the ticker in the list of triggers. When the buy and the sell threshold both
  match, SELL wins over BUY; when all three match, the result is STOP.
\<close>

theorem signal_precedence:
  assumes "pos \<in> set (aggregatePositions lc dp p)"
    and "pos_ticker pos \<in> tx_ticker ` set (transactions p)"
  shows "signal pos = specSignal (trigger pos) (lastPrice pos) (plPct pos)
       \<and> trigger pos = find (\<lambda>t. tr_ticker t = pos_ticker pos) (rev (triggers p))
       \<and> (\<forall>tr. trigger pos = Some tr \<and> buyMatches tr (lastPrice pos)
              \<and> sellMatches tr (lastPrice pos) \<and> \<not> stopMatches tr (lastPrice pos) (plPct pos)
            \<longrightarrow> signal pos = SigSELL)
       \<and> (\<forall>tr. trigger pos = Some tr \<and> buyMatches tr (lastPrice pos)
              \<and> sellMatches tr (lastPrice pos) \<and> stopMatches tr (lastPrice pos) (plPct pos)
            \<longrightarrow> signal pos = SigSTOP)"
proof -
  from aggregatePositions_mem [OF assms(1)] assms(2)
  obtain pm dm l where pos: "pos = positionOf pm (trigMap (triggers p)) dm (pos_ticker pos, l)"
    by blast
  have sig: "signal pos = specSignal (trigger pos) (lastPrice pos) (plPct pos)"
    by (subst (1 2 3 4) pos) (simp only: signal_positionOf deriveSignal_spec)
  have trg: "trigger pos = find (\<lambda>t. tr_ticker t = pos_ticker pos) (rev (triggers p))"
    by (subst pos) (simp add: trigger_positionOf map_of_trigMap)
  show ?thesis
    using trg by (simp add: sig specSignal_def)
qed

theorem signal_precedence_witness:
  "signal (aggregatePositions codeUnitCompare isoDate
      (mkPortfolio [mkTx ''2024-01-02'' ''PETR4'' BUY 100 37.5 None]
         [mkQuote ''PETR4'' 30] [mkTrigger ''PETR4'' (Some 37) (Some 25) (Some 8)]) ! 0) = SigSTOP"
proof -
  let ?p = "mkPortfolio [mkTx ''2024-01-02'' ''PETR4'' BUY 100 37.5 None]
         [mkQuote ''PETR4'' 30] [mkTrigger ''PETR4'' (Some 37) (Some 25) (Some 8)]"
  let ?out = "aggregatePositions codeUnitCompare isoDate ?p"
  let ?tr = "mkTrigger ''PETR4'' (Some 37) (Some 25) (Some 8)"
  have len: "length ?out = 1"
    by code_simp
  have mem: "?out ! 0 \<in> set ?out"
    using len by simp
  have tk: "pos_ticker (?out ! 0) \<in> tx_ticker ` set (transactions ?p)"
    by code_simp
  have trg: "trigger (?out ! 0) = Some ?tr"
    by code_simp
  have b: "buyMatches ?tr (lastPrice (?out ! 0))"
    by code_simp
  have s: "sellMatches ?tr (lastPrice (?out ! 0))"
    by code_simp
  have st: "stopMatches ?tr (lastPrice (?out ! 0)) (plPct (?out ! 0))"
    by code_simp
  from signal_precedence [OF mem tk] trg b s st show ?thesis
    by blast
qed

text \<open>
  C6. The claim asks for \<open>avgPrice = invested / qty\<close> at every positive \<open>qty\<close>. The code
  divides by \<open>max(qty, 1)\<close>, so a holding of a fraction of a share gets its whole cost as
  average price: 0.5 shares bought at 10 cost 5, and \<open>avgPrice\<close> is 5 where
  \<open>invested / qty\<close> is 10. (The sell branch of the fold computes the average as
  \<open>cost / qty\<close>, without the guard.)
\<close>

theorem fractional_qty_avgPrice:
  "length (aggregatePositions codeUnitCompare isoDate
        (mkPortfolio [mkTx ''2024-01-02'' ''IVVB11'' BUY 0.5 10 None] [] [])) = 1
   \<and> pos_qty (aggregatePositions codeUnitCompare isoDate
        (mkPortfolio [mkTx ''2024-01-02'' ''IVVB11'' BUY 0.5 10 None] [] []) ! 0) = 0.5
   \<and> invested (aggregatePositions codeUnitCompare isoDate
        (mkPortfolio [mkTx ''2024-01-02'' ''IVVB11'' BUY 0.5 10 None] [] []) ! 0) = 5
   \<and> avgPrice (aggregatePositions codeUnitCompare isoDate
        (mkPortfolio [mkTx ''2024-01-02'' ''IVVB11'' BUY 0.5 10 None] [] []) ! 0) = 5
   \<and> (5 :: real) / 0.5 = 10"
  by code_simp


text \<open>
  C7 (amended). The output of \<open>aggregatePositions\<close> has exactly one position for each
  ticker that occurs in the transactions or in the quotes, and no other. A ticker with a
  quote and no transaction gets a synthesized position with \<open>qty = invested = 0\<close>, the
  price of a quote of the ticker, the first trigger of the ticker if there is one, and a
  signal that comes from the buy and sell comparisons against that price only (never
  STOP). A ticker that has only a trigger gets no position.
\<close>

theorem one_position_per_ticker:
  "distinct (map pos_ticker (aggregatePositions lc dp p))
   \<and> pos_ticker ` set (aggregatePositions lc dp p) =
       tx_ticker ` set (transactions p) \<union> pn_ticker ` set (prices p)
   \<and> (\<forall>pos \<in> set (aggregatePositions lc dp p).
        pos_ticker pos \<notin> tx_ticker ` set (transactions p) \<longrightarrow>
          pos_qty pos = 0 \<and> invested pos = 0 \<and> signal pos \<noteq> SigSTOP \<and>
          trigger pos = find (\<lambda>t. tr_ticker t = pos_ticker pos) (triggers p) \<and>
          (\<exists>pr \<in> set (prices p). pn_ticker pr = pos_ticker pos \<and> lastPrice pos = pn_price pr
             \<and> signal pos = quoteSignal (trigger pos) (pn_price pr)))"
proof -
  have d: "distinct (map pos_ticker (aggregatePositions lc dp p))"
    by (simp add: aggregatePositions_def distinct_map_sortBy distinct_positionsUnsorted)
  have t: "pos_ticker ` set (aggregatePositions lc dp p) =
       tx_ticker ` set (transactions p) \<union> pn_ticker ` set (prices p)"
    by (simp add: aggregatePositions_def set_sortBy tickers_positionsUnsorted)
  have q: "pos_qty pos = 0 \<and> invested pos = 0 \<and> signal pos \<noteq> SigSTOP \<and>
          trigger pos = find (\<lambda>t. tr_ticker t = pos_ticker pos) (triggers p) \<and>
          (\<exists>pr \<in> set (prices p). pn_ticker pr = pos_ticker pos \<and> lastPrice pos = pn_price pr
             \<and> signal pos = quoteSignal (trigger pos) (pn_price pr))"
    if "pos \<in> set (aggregatePositions lc dp p)"
      and "pos_ticker pos \<notin> tx_ticker ` set (transactions p)" for pos
  proof -
    from aggregatePositions_mem [OF that(1)] that(2)
    obtain pr where pr: "pr \<in> set (prices p)" "pos_ticker pos = pn_ticker pr"
      "pos = quotePosition (triggers p) pr"
      by blast
    have "pos_qty pos = 0" "invested pos = 0" "lastPrice pos = pn_price pr"
      "trigger pos = find (\<lambda>t. tr_ticker t = pn_ticker pr) (triggers p)"
      "signal pos = quoteSignal (trigger pos) (pn_price pr)"
      by (simp_all add: pr(3) quotePosition_fields)
    then show ?thesis
      using pr(1,2) quoteSignal_not_stop by auto
  qed
  from d t q show ?thesis by blast
qed

theorem one_position_per_ticker_witness:
  "distinct (map pos_ticker (aggregatePositions codeUnitCompare isoDate
      (mkPortfolio [mkTx ''2024-01-02'' ''PETR4'' BUY 100 37.5 None]
         [mkQuote ''PETR4'' 38, mkQuote ''ABEV3'' 12]
         [mkTrigger ''ABEV3'' (Some 13) None (Some 5)])))
   \<and> pos_ticker ` set (aggregatePositions codeUnitCompare isoDate
      (mkPortfolio [mkTx ''2024-01-02'' ''PETR4'' BUY 100 37.5 None]
         [mkQuote ''PETR4'' 38, mkQuote ''ABEV3'' 12]
         [mkTrigger ''ABEV3'' (Some 13) None (Some 5)])) = {''PETR4'', ''ABEV3''}
   \<and> pos_qty (aggregatePositions codeUnitCompare isoDate
      (mkPortfolio [mkTx ''2024-01-02'' ''PETR4'' BUY 100 37.5 None]
         [mkQuote ''PETR4'' 38, mkQuote ''ABEV3'' 12]
         [mkTrigger ''ABEV3'' (Some 13) None (Some 5)]) ! 0) = 0
   \<and> invested (aggregatePositions codeUnitCompare isoDate
      (mkPortfolio [mkTx ''2024-01-02'' ''PETR4'' BUY 100 37.5 None]
         [mkQuote ''PETR4'' 38, mkQuote ''ABEV3'' 12]
         [mkTrigger ''ABEV3'' (Some 13) None (Some 5)]) ! 0) = 0"
proof -
  let ?p = "mkPortfolio [mkTx ''2024-01-02'' ''PETR4'' BUY 100 37.5 None]
         [mkQuote ''PETR4'' 38, mkQuote ''ABEV3'' 12]
         [mkTrigger ''ABEV3'' (Some 13) None (Some 5)]"
  let ?out = "aggregatePositions codeUnitCompare isoDate ?p"
  have len: "length ?out = 2"
    by code_simp
  have mem: "?out ! 0 \<in> set ?out"
    using len by simp
  have tk: "pos_ticker (?out ! 0) \<notin> tx_ticker ` set (transactions ?p)"
    by code_simp
  have tks: "tx_ticker ` set (transactions ?p) \<union> pn_ticker ` set (prices ?p) = {''PETR4'', ''ABEV3''}"
    by (auto simp: mkPortfolio_def mkTx_def mkQuote_def)
  note r = one_position_per_ticker [of codeUnitCompare isoDate ?p]
  from r have "distinct (map pos_ticker ?out)"
    by blast
  moreover from r have "pos_ticker ` set ?out = {''PETR4'', ''ABEV3''}"
    unfolding tks by blast
  moreover from r mem tk have "pos_qty (?out ! 0) = 0 \<and> invested (?out ! 0) = 0"
    by blast
  ultimately show ?thesis
    by blast
qed


text \<open>
  The claim as the specification states it fails for a ticker that has a trigger and
  neither a quote nor a transaction: it does not appear in the output.
\<close>

theorem trigger_only_ticker_has_no_position:
  "tr_ticker (mkTrigger ''ABEV3'' (Some 13) None None) = ''ABEV3''
   \<and> aggregatePositions codeUnitCompare isoDate
       (mkPortfolio [] [] [mkTrigger ''ABEV3'' (Some 13) None None]) = []"
  by code_simp

text \<open>
  C10 (amended). A threshold equal to 0 is treated differently in the two paths. For a
  ticker with transactions the thresholds pass a null check: \<open>sellPrice = 0\<close> with any
  \<open>lastPrice > 0\<close> gives SELL, unless the trailing stop matches, which gives STOP; and
  \<open>buyPrice = 0\<close> passes the check too but never gives BUY. For a synthesized position of a
  ticker with a quote only, the thresholds are tested by truthiness: a threshold equal to
  0 counts as unset, so the signal is the one without that threshold, and it is HOLD when
  neither threshold is set and non-zero.
\<close>

theorem zero_threshold_asymmetry:
  assumes "pos \<in> set (aggregatePositions lc dp p)" and "trigger pos = Some tr"
  shows "(pos_ticker pos \<in> tx_ticker ` set (transactions p) \<and> sellPrice tr = Some 0
            \<and> lastPrice pos > 0 \<longrightarrow>
          signal pos = (if stopMatches tr (lastPrice pos) (plPct pos) then SigSTOP else SigSELL))
       \<and> (pos_ticker pos \<in> tx_ticker ` set (transactions p) \<and> buyPrice tr = Some 0 \<longrightarrow>
          signal pos \<noteq> SigBUY)
       \<and> (pos_ticker pos \<notin> tx_ticker ` set (transactions p) \<and> buyPrice tr = Some 0 \<longrightarrow>
          signal pos = quoteSignal (Some (tr\<lparr>buyPrice := None\<rparr>)) (lastPrice pos))
       \<and> (pos_ticker pos \<notin> tx_ticker ` set (transactions p) \<and> sellPrice tr = Some 0 \<longrightarrow>
          signal pos = quoteSignal (Some (tr\<lparr>sellPrice := None\<rparr>)) (lastPrice pos))
       \<and> (pos_ticker pos \<notin> tx_ticker ` set (transactions p)
            \<and> (buyPrice tr = None \<or> buyPrice tr = Some 0)
            \<and> (sellPrice tr = None \<or> sellPrice tr = Some 0) \<longrightarrow>
          signal pos = SigHOLD)"
proof (cases "pos_ticker pos \<in> tx_ticker ` set (transactions p)")
  case True
  from aggregatePositions_mem [OF assms(1)] True
  obtain pm tm dm l where pos: "pos = positionOf pm tm dm (pos_ticker pos, l)"
    by blast
  have "signal pos = specSignal (trigger pos) (lastPrice pos) (plPct pos)"
    by (subst (1 2 3 4) pos) (simp only: signal_positionOf deriveSignal_spec)
  then have sig: "signal pos = specSignal (Some tr) (lastPrice pos) (plPct pos)"
    by (simp add: assms(2))
  show ?thesis
    using True by (auto simp: sig specSignal_def sellMatches_def buyMatches_def)
next
  case False
  from aggregatePositions_mem [OF assms(1)] False
  obtain pr where pr: "pos = quotePosition (triggers p) pr"
    by blast
  have "signal pos = quoteSignal (trigger pos) (lastPrice pos)"
    by (subst (1 2 3) pr) (simp add: quotePosition_fields)
  then have sig: "signal pos = quoteSignal (Some tr) (lastPrice pos)"
    by (simp add: assms(2))
  show ?thesis
    using False by (auto simp: sig quoteSignal_def quoteTest_def)
qed

theorem zero_threshold_asymmetry_witness:
  "signal (aggregatePositions codeUnitCompare isoDate
      (mkPortfolio [mkTx ''2024-01-02'' ''PETR4'' BUY 100 37.5 None]
         [mkQuote ''PETR4'' 38, mkQuote ''ABEV3'' 12]
         [mkTrigger ''PETR4'' None (Some 0) None, mkTrigger ''ABEV3'' None (Some 0) None]) ! 1)
     = SigSELL
   \<and> signal (aggregatePositions codeUnitCompare isoDate
      (mkPortfolio [mkTx ''2024-01-02'' ''PETR4'' BUY 100 37.5 None]
         [mkQuote ''PETR4'' 38, mkQuote ''ABEV3'' 12]
         [mkTrigger ''PETR4'' None (Some 0) None, mkTrigger ''ABEV3'' None (Some 0) None]) ! 0)
     = SigHOLD"
proof -
  let ?p = "mkPortfolio [mkTx ''2024-01-02'' ''PETR4'' BUY 100 37.5 None]
         [mkQuote ''PETR4'' 38, mkQuote ''ABEV3'' 12]
         [mkTrigger ''PETR4'' None (Some 0) None, mkTrigger ''ABEV3'' None (Some 0) None]"
  let ?out = "aggregatePositions codeUnitCompare isoDate ?p"
  have len: "length ?out = 2"
    by code_simp
  have mem0: "?out ! 0 \<in> set ?out" and mem1: "?out ! 1 \<in> set ?out"
    using len by simp_all
  have tr0: "trigger (?out ! 0) = Some (mkTrigger ''ABEV3'' None (Some 0) None)"
    by code_simp
  have tr1: "trigger (?out ! 1) = Some (mkTrigger ''PETR4'' None (Some 0) None)"
    by code_simp
  have tk0: "pos_ticker (?out ! 0) \<notin> tx_ticker ` set (transactions ?p)"
    by code_simp
  have tk1: "pos_ticker (?out ! 1) \<in> tx_ticker ` set (transactions ?p)"
    by code_simp
  have lp1: "lastPrice (?out ! 1) > 0"
    by code_simp
  have nostop: "\<not> stopMatches (mkTrigger ''PETR4'' None (Some 0) None)
      (lastPrice (?out ! 1)) (plPct (?out ! 1))"
    by (simp add: stopMatches_def mkTrigger_def)
  have b0: "buyPrice (mkTrigger ''ABEV3'' None (Some 0) None) = None"
    and s0: "sellPrice (mkTrigger ''ABEV3'' None (Some 0) None) = Some 0"
    and s1: "sellPrice (mkTrigger ''PETR4'' None (Some 0) None) = Some 0"
    by (simp_all add: mkTrigger_def)
  have "signal (?out ! 1) =
      (if stopMatches (mkTrigger ''PETR4'' None (Some 0) None) (lastPrice (?out ! 1)) (plPct (?out ! 1))
       then SigSTOP else SigSELL)"
    using tk1 s1 lp1
    by (intro zero_threshold_asymmetry [OF mem1 tr1, THEN conjunct1, rule_format] conjI)
  then have "signal (?out ! 1) = SigSELL"
    by (simp only: nostop if_False)
  moreover have "signal (?out ! 0) = SigHOLD"
    using tk0 b0 s0
    by (intro zero_threshold_asymmetry [OF mem0 tr0, THEN conjunct2, THEN conjunct2,
          THEN conjunct2, THEN conjunct2, rule_format] conjI disjI1 disjI2)
  ultimately show ?thesis
    by blast
qed


text \<open>
  The claim as stated fails when the trailing stop matches too: with \<open>sellPrice = 0\<close>, a
  quote of 50 on 10 shares bought at 100 and a trailing stop of 10 percent, the signal is
  STOP and not SELL.
\<close>

theorem zero_sell_threshold_with_stop:
  "sellPrice (mkTrigger ''PETR4'' None (Some 0) (Some 10)) = Some 0
   \<and> length (aggregatePositions codeUnitCompare isoDate
          (mkPortfolio [mkTx ''2024-01-02'' ''PETR4'' BUY 10 100 None]
             [mkQuote ''PETR4'' 50] [mkTrigger ''PETR4'' None (Some 0) (Some 10)])) = 1
   \<and> trigger (aggregatePositions codeUnitCompare isoDate
          (mkPortfolio [mkTx ''2024-01-02'' ''PETR4'' BUY 10 100 None]
             [mkQuote ''PETR4'' 50] [mkTrigger ''PETR4'' None (Some 0) (Some 10)]) ! 0)
       = Some (mkTrigger ''PETR4'' None (Some 0) (Some 10))
   \<and> lastPrice (aggregatePositions codeUnitCompare isoDate
          (mkPortfolio [mkTx ''2024-01-02'' ''PETR4'' BUY 10 100 None]
             [mkQuote ''PETR4'' 50] [mkTrigger ''PETR4'' None (Some 0) (Some 10)]) ! 0) = 50
   \<and> plPct (aggregatePositions codeUnitCompare isoDate
          (mkPortfolio [mkTx ''2024-01-02'' ''PETR4'' BUY 10 100 None]
             [mkQuote ''PETR4'' 50] [mkTrigger ''PETR4'' None (Some 0) (Some 10)]) ! 0) = - 50
   \<and> signal (aggregatePositions codeUnitCompare isoDate
          (mkPortfolio [mkTx ''2024-01-02'' ''PETR4'' BUY 10 100 None]
             [mkQuote ''PETR4'' 50] [mkTrigger ''PETR4'' None (Some 0) (Some 10)]) ! 0) = SigSTOP"
  by code_simp


text \<open>
  C4. \<open>shareCountAtDate\<close> is the sum of the signed quantities (\<open>+qty\<close> of a BUY, \<open>-qty\<close>
  of a SELL) of exactly the transactions of the ticker that are dated on or before the
  given date, clamped at 0 from below; so it is never negative. A transaction is dated on
  or before the date when both dates are valid and its time value is at most that of the
  date, so a transaction with the same (valid) date is counted.
\<close>

theorem share_count_is_clamped_sum:
  "shareCountAtDate dp txs tk dateISO =
     max (\<Sum>t\<leftarrow>filter (\<lambda>t. tx_ticker t = tk \<and> dateLe (dp (tx_date t)) (dp dateISO)) txs.
            (if tx_type t = BUY then tx_qty t else - tx_qty t)) 0
   \<and> 0 \<le> shareCountAtDate dp txs tk dateISO
   \<and> (\<forall>t. dateLe (dp (tx_date t)) (dp dateISO) =
          (\<exists>x y. dp (tx_date t) = Some x \<and> dp dateISO = Some y \<and> x \<le> y))
   \<and> (\<forall>t \<in> set txs. tx_ticker t = tk \<and> dp dateISO \<noteq> None \<and> dp (tx_date t) = dp dateISO \<longrightarrow>
          t \<in> set (filter (\<lambda>t. tx_ticker t = tk \<and> dateLe (dp (tx_date t)) (dp dateISO)) txs))"
proof -
  have "shareCountAtDate dp txs tk dateISO =
     max (\<Sum>t\<leftarrow>filter (\<lambda>t. tx_ticker t = tk \<and> dateLe (dp (tx_date t)) (dp dateISO)) txs.
            (if tx_type t = BUY then tx_qty t else - tx_qty t)) 0"
    using shareCountAtDate_sum [of dp txs tk dateISO] by (simp add: signedQty_def)
  moreover have "0 \<le> shareCountAtDate dp txs tk dateISO"
    by (simp add: shareCountAtDate_sum)
  moreover have "\<forall>t. dateLe (dp (tx_date t)) (dp dateISO) =
          (\<exists>x y. dp (tx_date t) = Some x \<and> dp dateISO = Some y \<and> x \<le> y)"
    by (simp add: dateLe_iff)
  moreover have "\<forall>t \<in> set txs. tx_ticker t = tk \<and> dp dateISO \<noteq> None \<and> dp (tx_date t) = dp dateISO \<longrightarrow>
          t \<in> set (filter (\<lambda>t. tx_ticker t = tk \<and> dateLe (dp (tx_date t)) (dp dateISO)) txs)"
    by (auto simp: dateLe_def split: option.splits)
  ultimately show ?thesis
    by blast
qed

theorem share_count_is_clamped_sum_witness:
  "shareCountAtDate isoDate
      [mkTx ''2024-01-02'' ''PETR4'' BUY 10 30 None, mkTx ''2024-01-05'' ''VALE3'' BUY 7 60 None,
       mkTx ''2024-02-01'' ''PETR4'' SELL 4 35 None, mkTx ''2024-03-01'' ''PETR4'' BUY 5 33 None]
      ''PETR4'' ''2024-02-01'' = 6"
proof -
  let ?txs = "[mkTx ''2024-01-02'' ''PETR4'' BUY 10 30 None, mkTx ''2024-01-05'' ''VALE3'' BUY 7 60 None,
       mkTx ''2024-02-01'' ''PETR4'' SELL 4 35 None, mkTx ''2024-03-01'' ''PETR4'' BUY 5 33 None]"
  have "max (\<Sum>t\<leftarrow>filter (\<lambda>t. tx_ticker t = ''PETR4'' \<and>
                dateLe (isoDate (tx_date t)) (isoDate ''2024-02-01'')) ?txs.
            (if tx_type t = BUY then tx_qty t else - tx_qty t)) 0 = (6 :: real)"
    by code_simp
  with share_count_is_clamped_sum [of isoDate ?txs "''PETR4''" "''2024-02-01''", THEN conjunct1]
  show ?thesis
    by (rule trans)
qed


text \<open>
  C5 (amended). For a fixed ticker and list of transactions and two valid dates
  \<open>d1 \<le> d2\<close>, the share count at \<open>d1\<close> is at most the share count at \<open>d2\<close>, provided that
  every transaction of the ticker dated after \<open>d1\<close> and on or before \<open>d2\<close> adds a
  non-negative signed quantity: \<open>qty \<ge> 0\<close> for a BUY and \<open>qty \<le> 0\<close> for a SELL.
\<close>

theorem share_count_monotone_without_later_sells:
  assumes "dp d1 = Some a" and "dp d2 = Some b" and "a \<le> b"
    and "\<forall>t \<in> set txs. tx_ticker t = tk \<and> \<not> dateLe (dp (tx_date t)) (dp d1)
            \<and> dateLe (dp (tx_date t)) (dp d2)
          \<longrightarrow> 0 \<le> (if tx_type t = BUY then tx_qty t else - tx_qty t)"
  shows "shareCountAtDate dp txs tk d1 \<le> shareCountAtDate dp txs tk d2"
proof -
  let ?P1 = "\<lambda>t. tx_ticker t = tk \<and> dateLe (dp (tx_date t)) (dp d1)"
  let ?P2 = "\<lambda>t. tx_ticker t = tk \<and> dateLe (dp (tx_date t)) (dp d2)"
  have imp: "?P1 t \<Longrightarrow> ?P2 t" for t
    using assms(1-3) by (auto simp: dateLe_def split: option.splits)
  have split: "(\<Sum>t\<leftarrow>filter ?P2 txs. signedQty t) =
      (\<Sum>t\<leftarrow>filter ?P1 txs. signedQty t) + (\<Sum>t\<leftarrow>filter (\<lambda>t. ?P2 t \<and> \<not> ?P1 t) txs. signedQty t)"
    using imp by (rule sum_filter_split)
  have "0 \<le> (\<Sum>t\<leftarrow>filter (\<lambda>t. ?P2 t \<and> \<not> ?P1 t) txs. signedQty t)"
  proof (rule sum_list_nonneg)
    fix x assume "x \<in> set (map signedQty (filter (\<lambda>t. ?P2 t \<and> \<not> ?P1 t) txs))"
    then obtain t where "t \<in> set txs" "?P2 t" "\<not> ?P1 t" "x = signedQty t"
      by auto
    with assms(4) show "0 \<le> x"
      by (auto simp: signedQty_def)
  qed
  with split have "(\<Sum>t\<leftarrow>filter ?P1 txs. signedQty t) \<le> (\<Sum>t\<leftarrow>filter ?P2 txs. signedQty t)"
    by linarith
  then show ?thesis
    unfolding shareCountAtDate_sum by (rule max.mono) simp
qed

theorem share_count_monotone_without_later_sells_witness:
  "shareCountAtDate isoDate
      [mkTx ''2024-01-02'' ''PETR4'' BUY 10 30 None, mkTx ''2024-02-01'' ''PETR4'' BUY 5 33 None]
      ''PETR4'' ''2024-01-15''
   \<le> shareCountAtDate isoDate
      [mkTx ''2024-01-02'' ''PETR4'' BUY 10 30 None, mkTx ''2024-02-01'' ''PETR4'' BUY 5 33 None]
      ''PETR4'' ''2024-02-15''"
proof -
  let ?txs = "[mkTx ''2024-01-02'' ''PETR4'' BUY 10 30 None, mkTx ''2024-02-01'' ''PETR4'' BUY 5 33 None]"
  have d1: "isoDate ''2024-01-15'' = Some 1705276800000"
    by code_simp
  have d2: "isoDate ''2024-02-15'' = Some 1707955200000"
    by code_simp
  have le: "(1705276800000 :: int) \<le> 1707955200000"
    by simp
  have buys: "\<forall>t \<in> set ?txs. tx_ticker t = ''PETR4''
        \<and> \<not> dateLe (isoDate (tx_date t)) (isoDate ''2024-01-15'')
        \<and> dateLe (isoDate (tx_date t)) (isoDate ''2024-02-15'')
      \<longrightarrow> 0 \<le> (if tx_type t = BUY then tx_qty t else - tx_qty t)"
    by (simp add: mkTx_def)
  show ?thesis
    by (rule share_count_monotone_without_later_sells [OF d1 d2 le buys])
qed


text \<open>
  The claim as the specification states it fails at this input, where a SELL lies between
  the two dates: the count drops from 10 to 6, and is not clamped at 0.
\<close>

theorem share_count_drops_after_sell:
  "isoDate ''2024-01-15'' = Some 1705276800000
   \<and> isoDate ''2024-02-15'' = Some 1707955200000
   \<and> shareCountAtDate isoDate
       [mkTx ''2024-01-02'' ''PETR4'' BUY 10 30 None, mkTx ''2024-02-01'' ''PETR4'' SELL 4 35 None]
       ''PETR4'' ''2024-01-15'' = 10
   \<and> shareCountAtDate isoDate
       [mkTx ''2024-01-02'' ''PETR4'' BUY 10 30 None, mkTx ''2024-02-01'' ''PETR4'' SELL 4 35 None]
       ''PETR4'' ''2024-02-15'' = 6
   \<and> \<not> (10 :: real) \<le> 6"
  by code_simp





text \<open>
  C9. When the list of quotes has at most one quote per ticker, writing a quote of a ticker
  with \<open>upsert\<close> keyed on the ticker, as \<open>setPrice\<close> does, gives a list that still has at
  most one quote per ticker; the quote of that ticker is the new one, and the quotes of
  the other tickers are unchanged, in their order.
\<close>

theorem upsert_quote_latest_wins:
  assumes "distinct (map pn_ticker ps)"
  shows "distinct (map pn_ticker
           (upsert ps (\<lambda>x. pn_ticker x = tk) \<lparr> pn_ticker = tk, pn_price = price, pn_updatedAt = nowISO \<rparr>))
       \<and> \<lparr> pn_ticker = tk, pn_price = price, pn_updatedAt = nowISO \<rparr>
           \<in> set (upsert ps (\<lambda>x. pn_ticker x = tk)
                    \<lparr> pn_ticker = tk, pn_price = price, pn_updatedAt = nowISO \<rparr>)
       \<and> (\<forall>q \<in> set (upsert ps (\<lambda>x. pn_ticker x = tk)
                       \<lparr> pn_ticker = tk, pn_price = price, pn_updatedAt = nowISO \<rparr>).
            pn_ticker q = tk \<longrightarrow> q = \<lparr> pn_ticker = tk, pn_price = price, pn_updatedAt = nowISO \<rparr>)
       \<and> filter (\<lambda>q. pn_ticker q \<noteq> tk)
            (upsert ps (\<lambda>x. pn_ticker x = tk) \<lparr> pn_ticker = tk, pn_price = price, pn_updatedAt = nowISO \<rparr>)
          = filter (\<lambda>q. pn_ticker q \<noteq> tk) ps"
proof -
  let ?now = "\<lparr> pn_ticker = tk, pn_price = price, pn_updatedAt = nowISO \<rparr>"
  have tk: "pn_ticker ?now = tk" by simp
  have "distinct (map pn_ticker (upsert ps (\<lambda>x. pn_ticker x = tk) ?now))"
    using assms by (simp add: upsert_tickers [OF tk])
  moreover have "?now \<in> set (upsert ps (\<lambda>x. pn_ticker x = tk) ?now)"
    by (rule upsert_mem)
  moreover have "\<forall>q \<in> set (upsert ps (\<lambda>x. pn_ticker x = tk) ?now). pn_ticker q = tk \<longrightarrow> q = ?now"
    using upsert_same [OF assms tk] by blast
  moreover have "filter (\<lambda>q. pn_ticker q \<noteq> tk) (upsert ps (\<lambda>x. pn_ticker x = tk) ?now)
          = filter (\<lambda>q. pn_ticker q \<noteq> tk) ps"
    by (rule upsert_others [OF tk])
  ultimately show ?thesis
    by blast
qed

theorem upsert_quote_latest_wins_witness:
  "upsert [mkQuote ''PETR4'' 38, mkQuote ''VALE3'' 61]
      (\<lambda>x. pn_ticker x = ''VALE3'')
      \<lparr> pn_ticker = ''VALE3'', pn_price = 62, pn_updatedAt = ''2024-06-02T09:00:00.000Z'' \<rparr>
   = [mkQuote ''PETR4'' 38,
      \<lparr> pn_ticker = ''VALE3'', pn_price = 62, pn_updatedAt = ''2024-06-02T09:00:00.000Z'' \<rparr>]
   \<and> distinct (map pn_ticker (upsert [mkQuote ''PETR4'' 38, mkQuote ''VALE3'' 61]
      (\<lambda>x. pn_ticker x = ''VALE3'')
      \<lparr> pn_ticker = ''VALE3'', pn_price = 62, pn_updatedAt = ''2024-06-02T09:00:00.000Z'' \<rparr>))"
proof -
  have d: "distinct (map pn_ticker [mkQuote ''PETR4'' 38, mkQuote ''VALE3'' 61])"
    by (simp add: mkQuote_def)
  have e: "upsert [mkQuote ''PETR4'' 38, mkQuote ''VALE3'' 61]
      (\<lambda>x. pn_ticker x = ''VALE3'')
      \<lparr> pn_ticker = ''VALE3'', pn_price = 62, pn_updatedAt = ''2024-06-02T09:00:00.000Z'' \<rparr>
   = [mkQuote ''PETR4'' 38,
      \<lparr> pn_ticker = ''VALE3'', pn_price = 62, pn_updatedAt = ''2024-06-02T09:00:00.000Z'' \<rparr>]"
    by (simp add: upsert_def findIndex_def mkQuote_def)
  from upsert_quote_latest_wins [OF d, of "''VALE3''" 62 "''2024-06-02T09:00:00.000Z''"] e
  show ?thesis
    by blast
qed

end
